theory Spec2Isabelle
  imports Main "HOL-Library.Sublist"
begin

section \<open>Python string operations used by app.py\<close>

text \<open>
  A Python \<open>str\<close> is modelled as a \<open>string\<close> (a list of 8-bit characters), each
  character standing for the code point of the same number, so the model covers the
  strings over the code points 0 to 255. On these, \<open>str.isspace\<close>, \<open>str.strip\<close> and
  \<open>str.lower\<close> are the functions below: the whitespace code points are 9 to 13, 28 to
  32, 133 and 160, and \<open>lower\<close> moves A to Z and the upper-case letters 192 to 222
  (without the sign 215) up by 32.
\<close>

definition is_space :: "char \<Rightarrow> bool" where
  "is_space c =
     (let n = (of_char c :: nat)
      in (9 \<le> n \<and> n \<le> 13) \<or> (28 \<le> n \<and> n \<le> 32) \<or> n = 133 \<or> n = 160)"

definition lower_char :: "char \<Rightarrow> char" where
  "lower_char c =
     (let n = (of_char c :: nat)
      in if (65 \<le> n \<and> n \<le> 90) \<or> (192 \<le> n \<and> n \<le> 222 \<and> n \<noteq> 215)
         then char_of (n + 32) else c)"

definition lower :: "string \<Rightarrow> string" where
  "lower s = map lower_char s"

definition lstrip :: "string \<Rightarrow> string" where
  "lstrip s = dropWhile is_space s"

definition rstrip :: "string \<Rightarrow> string" where
  "rstrip s = rev (dropWhile is_space (rev s))"

definition strip :: "string \<Rightarrow> string" where
  "strip s = rstrip (lstrip s)"

definition startswith :: "string \<Rightarrow> string \<Rightarrow> bool" where
  "startswith s p = prefix p s"

definition endswith :: "string \<Rightarrow> string \<Rightarrow> bool" where
  "endswith s p = suffix p s"

text \<open>\<open>contains sub s\<close> is Python's \<open>sub in s\<close> on strings.\<close>

fun contains :: "string \<Rightarrow> string \<Rightarrow> bool" where
  "contains sub [] = (sub = [])"
| "contains sub (c # cs) = (prefix sub (c # cs) \<or> contains sub cs)"

text \<open>The decimal rendering of a natural number, as an f-string prints an \<open>int\<close>.\<close>

fun str_of_nat :: "nat \<Rightarrow> string" where
  "str_of_nat n =
     (if n < 10 then [char_of (48 + n)]
      else str_of_nat (n div 10) @ [char_of (48 + n mod 10)])"

section \<open>Constants\<close>

definition SENSITIVE_KEYWORDS :: "string list" where
  "SENSITIVE_KEYWORDS = [''password'', ''credit_card'', ''ssn'', ''social security'', ''pin'']"

definition MAX_QUERY_LENGTH :: nat where
  "MAX_QUERY_LENGTH = 2000"

section \<open>validate_sql\<close>

definition validate_sql :: "string \<Rightarrow> bool \<times> string" where
  "validate_sql query0 =
     (if query0 = [] then (False, ''Empty query'')
      else
        let query = strip (lower query0)
        in if \<not> list_ex (startswith query) [''select'', ''insert'', ''update'', ''delete'']
           then (False, ''Query must start with SELECT, INSERT, UPDATE, or DELETE'')
           else if CHR '';'' \<in> set (butlast query)
           then (False, ''Multiple queries not allowed'')
           else if list_ex (\<lambda>keyword. contains keyword query) [''drop'', ''truncate'', ''alter'']
           then (False, ''Potentially dangerous operation detected'')
           else (True, []))"

section \<open>clean_sql_query\<close>

definition prefixes_to_remove :: "string list" where
  "prefixes_to_remove = [''SQL Query:'', ''SQL:'', ''Query:'', ''Answer:'']"

text \<open>One round of the loop over \<open>prefixes_to_remove\<close>; the loop has no \<open>break\<close>.\<close>

definition remove_prefix :: "string \<Rightarrow> string \<Rightarrow> string" where
  "remove_prefix sql_query p =
     (if startswith (strip sql_query) p
      then strip (drop (length p) (strip sql_query))
      else sql_query)"

definition clean_sql_query :: "string \<Rightarrow> string" where
  "clean_sql_query sql_query =
     (if sql_query = [] then []
      else
        let s1 = (if startswith sql_query ''```sql'' then drop 6 sql_query
                  else if startswith sql_query ''```'' then drop 3 sql_query
                  else sql_query);
            s2 = (if endswith s1 ''```'' then take (length s1 - 3) s1 else s1);
            s3 = foldl remove_prefix s2 prefixes_to_remove
        in strip s3)"

section \<open>get_gemini_response\<close>

text \<open>
  The model handle is \<open>None\<close> or an object whose \<open>generate_content(prompt).text\<close>
  either gives the raw text or raises. The exceptions are the classes the handlers of
  \<open>get_gemini_response\<close> tell apart, each with the text of \<open>str(e)\<close>;
  \<open>OtherException\<close> is any other subclass of \<open>Exception\<close>.
\<close>

datatype api_error =
    ValueError string
  | InvalidArgument string
  | PermissionDenied string
  | ResourceExhausted string
  | OtherException string

type_synonym gemini_model = "string \<Rightarrow> api_error + string"

definition prompt_head :: string where
  "prompt_head =
     ''\<newline>'' @
     ''    You are an expert in converting English questions to SQL query!\<newline>'' @
     ''    The SQL database has the following tables and columns:\<newline>'' @
     ''    \<newline>'' @
     ''    **Database Schema:**\<newline>'' @
     ''    1. **employees** table: employee_id (PK), first_name, last_name, email, phone, hire_date, job_id (FK), salary, department_id (FK)\<newline>'' @
     ''    2. **departments** table: department_id (PK), department_name, manager_id (FK), location_id (FK)\<newline>'' @
     ''    3. **jobs** table: job_id (PK), job_title, min_salary, max_salary\<newline>'' @
     ''    4. **locations** table: location_id (PK), street_address, postal_code, city, state_province, country_id\<newline>'' @
     ''    5. **customers** table: customer_id (PK), first_name, last_name, email, phone, address, city, state, country\<newline>'' @
     ''    6. **orders** table: order_id (PK), customer_id (FK), order_date, total_amount, status\<newline>'' @
     ''    7. **products** table: product_id (PK), product_name, category, price, stock_quantity\<newline>'' @
     ''    8. **order_items** table: order_item_id (PK), order_id (FK), product_id (FK), quantity, unit_price\<newline>'' @
     ''    \<newline>'' @
     ''    **Instructions:**\<newline>'' @
     ''    - Convert the following English question to a proper SQL query\<newline>'' @
     ''    - Use appropriate JOINs when querying multiple tables\<newline>'' @
     ''    - Include proper WHERE clauses for filtering\<newline>'' @
     ''    - Use ORDER BY and LIMIT when appropriate\<newline>'' @
     ''    - Ensure the query is syntactically correct\<newline>'' @
     ''    - Return ONLY the SQL query without explanations\<newline>'' @
     ''    - Never include DROP, TRUNCATE, or other destructive operations\<newline>'' @
     ''    \<newline>'' @
     ''    **Question:** ''"

definition prompt_tail :: string where
  "prompt_tail =
     ''\<newline>'' @
     ''    \<newline>'' @
     ''    **SQL Query:**\<newline>'' @
     ''    ''"

definition build_prompt :: "string \<Rightarrow> string" where
  "build_prompt input_text = prompt_head @ input_text @ prompt_tail"

definition get_gemini_response :: "string \<Rightarrow> gemini_model option \<Rightarrow> string" where
  "get_gemini_response input_text model =
     (case model of
        None \<Rightarrow> ''Error: Gemini AI model not initialized''
      | Some generate_content \<Rightarrow>
          if list_ex (\<lambda>keyword. contains keyword (lower input_text)) SENSITIVE_KEYWORDS
          then ''Error: Query contains potentially sensitive keywords''
          else if length input_text > MAX_QUERY_LENGTH
          then ''Error: Query too long (max '' @ str_of_nat MAX_QUERY_LENGTH @ '' characters)''
          else
            (case generate_content (build_prompt input_text) of
               Inr text \<Rightarrow>
                 (let cleaned_query = clean_sql_query text;
                      (is_valid, validation_msg) = validate_sql cleaned_query
                  in if \<not> is_valid then ''Validation Error: '' @ validation_msg
                     else cleaned_query)
             | Inl (ValueError e) \<Rightarrow>
                 if contains ''policy'' (lower e) \<or> contains ''safety'' (lower e)
                 then ''Error: Prompt blocked for safety reasons''
                 else ''Error: '' @ e
             | Inl (InvalidArgument e) \<Rightarrow> ''Error: Invalid prompt - '' @ e
             | Inl (PermissionDenied e) \<Rightarrow> ''Error: API key rejected - '' @ e
             | Inl (ResourceExhausted e) \<Rightarrow> ''Error: API quota exceeded - '' @ e
             | Inl (OtherException e) \<Rightarrow> ''Error generating SQL query: '' @ e))"

section \<open>query_converter_page: the session history\<close>

record history_entry =
  question :: string
  sql_query :: string
  timestamp :: string

text \<open>
  The part of \<open>query_converter_page\<close> that decides what is appended to
  \<open>st.session_state.query_history\<close>: the widgets' values (the button, the text area, the
  check box), the model handle of the session and the formatted time of the clock come in,
  the history after the run comes out. What the page draws is left out.
\<close>

definition query_converter_page ::
  "bool \<Rightarrow> string \<Rightarrow> bool \<Rightarrow> gemini_model option \<Rightarrow> string \<Rightarrow>
   history_entry list \<Rightarrow> history_entry list" where
  "query_converter_page submit input_text save_history model now query_history =
     (if submit \<and> strip input_text \<noteq> [] then
        let sql_query = get_gemini_response input_text model
        in if startswith sql_query ''Error'' then query_history
           else if save_history \<and> sql_query \<noteq> [] \<and> \<not> startswith sql_query ''Error''
           then query_history @
                  [\<lparr>question = input_text, sql_query = sql_query, timestamp = now\<rparr>]
           else query_history
      else query_history)"

section \<open>Reading the result of get_gemini_response\<close>

text \<open>
  \<open>get_gemini_response\<close> returns one string for a query and for a failure alike. A
  failure is told by its tag: every failure text of the function starts with \<open>Error\<close>
  or with \<open>Validation Error: \<close>. \<open>accepted_run\<close> names the one path of the function
  that returns a query: no sensitive keyword, not too long, the model gives a text, and
  the cleaned text passes \<open>validate_sql\<close>. \<open>rejected_run\<close> names the path on which
  the model gives a text and \<open>validate_sql\<close> rejects the cleaned text.
\<close>

definition failure_tagged :: "string \<Rightarrow> bool" where
  "failure_tagged r = (startswith r ''Error'' \<or> startswith r ''Validation Error: '')"

definition accepted_run :: "string \<Rightarrow> gemini_model \<Rightarrow> bool" where
  "accepted_run q m =
     (\<not> list_ex (\<lambda>keyword. contains keyword (lower q)) SENSITIVE_KEYWORDS \<and>
      \<not> length q > MAX_QUERY_LENGTH \<and>
      (case m (build_prompt q) of
         Inr raw \<Rightarrow> fst (validate_sql (clean_sql_query raw))
       | Inl e \<Rightarrow> False))"

definition rejected_run :: "string \<Rightarrow> gemini_model \<Rightarrow> bool" where
  "rejected_run q m =
     (\<not> list_ex (\<lambda>keyword. contains keyword (lower q)) SENSITIVE_KEYWORDS \<and>
      \<not> length q > MAX_QUERY_LENGTH \<and>
      (case m (build_prompt q) of
         Inr raw \<Rightarrow> \<not> fst (validate_sql (clean_sql_query raw))
       | Inl e \<Rightarrow> False))"

section \<open>Facts about the string operations\<close>

lemma rstrip_Nil [simp]: "rstrip [] = []" by (simp add: rstrip_def)
lemma lstrip_Nil [simp]: "lstrip [] = []" by (simp add: lstrip_def)
lemma strip_Nil [simp]: "strip [] = []" by (simp add: strip_def)

lemma lstrip_eq_Nil: "lstrip s = [] \<longleftrightarrow> (\<forall>c\<in>set s. is_space c)"
  by (simp add: lstrip_def dropWhile_eq_Nil_conv)

lemma rstrip_eq_Nil: "rstrip s = [] \<longleftrightarrow> (\<forall>c\<in>set s. is_space c)"
  by (simp add: rstrip_def dropWhile_eq_Nil_conv)

lemma rstrip_Cons:
  "rstrip (x # xs) = (if is_space x \<and> rstrip xs = [] then [] else x # rstrip xs)"
  by (auto simp: rstrip_def dropWhile_append dropWhile_eq_Nil_conv)

lemma rstrip_append:
  "rstrip (xs @ ys) = (if rstrip ys = [] then rstrip xs else xs @ rstrip ys)"
  by (induction xs) (auto simp: rstrip_Cons)

lemma lstrip_Cons: "lstrip (x # xs) = (if is_space x then lstrip xs else x # xs)"
  by (simp add: lstrip_def)

lemma lstrip_rstrip: "lstrip (rstrip s) = rstrip (lstrip s)"
proof (induction s)
  case Nil
  show ?case by simp
next
  case (Cons x xs)
  show ?case
  proof (cases "is_space x")
    case True
    have "lstrip (rstrip (x # xs)) = lstrip (rstrip xs)"
      using True by (simp add: rstrip_Cons lstrip_Cons)
    moreover have "rstrip (lstrip (x # xs)) = rstrip (lstrip xs)"
      using True by (simp add: lstrip_Cons)
    ultimately show ?thesis using Cons by simp
  next
    case False
    then show ?thesis by (simp add: rstrip_Cons lstrip_Cons)
  qed
qed

lemma all_space_lstrip: "(\<forall>c\<in>set (lstrip s). is_space c) = (\<forall>c\<in>set s. is_space c)"
  by (induction s) (auto simp: lstrip_Cons)

lemma strip_eq_Nil: "strip s = [] \<longleftrightarrow> (\<forall>c\<in>set s. is_space c)"
  by (simp add: strip_def rstrip_eq_Nil all_space_lstrip)

lemma lstrip_idem: "lstrip (lstrip s) = lstrip s"
  by (simp add: lstrip_def)

lemma rstrip_idem: "rstrip (rstrip s) = rstrip s"
  by (simp add: rstrip_def)

lemma strip_idem: "strip (strip s) = strip s"
  by (simp only: strip_def lstrip_rstrip lstrip_idem rstrip_idem)

lemma strip_rstrip: "strip (rstrip s) = strip s"
  by (simp only: strip_def lstrip_rstrip rstrip_idem)

lemma strip_lstrip: "strip (lstrip s) = strip s"
  by (simp only: strip_def lstrip_idem)

lemma is_space_lower_char: "is_space c \<Longrightarrow> lower_char c = c"
  by (auto simp: is_space_def lower_char_def Let_def)

lemma lower_whitespace: "\<forall>c\<in>set s. is_space c \<Longrightarrow> lower s = s"
  by (simp add: lower_def map_idI is_space_lower_char)

lemma sublist_lstrip: "sublist (lstrip s) s"
proof -
  have "s = takeWhile is_space s @ lstrip s @ []" by (simp add: lstrip_def)
  then show ?thesis unfolding sublist_def by blast
qed

lemma sublist_rstrip: "sublist (rstrip s) s"
proof -
  have "rev s = takeWhile is_space (rev s) @ dropWhile is_space (rev s)" by simp
  then have "s = [] @ rstrip s @ rev (takeWhile is_space (rev s))"
    unfolding rstrip_def by (metis append_Nil rev_append rev_rev_ident)
  then show ?thesis unfolding sublist_def by blast
qed

lemma sublist_strip: "sublist (strip s) s"
  unfolding strip_def using sublist_lstrip sublist_rstrip sublist_order.order_trans by blast

lemma contains_iff_sublist: "contains sub s = sublist sub s"
  by (induction s) (auto simp: sublist_Cons_right)

section \<open>The spec's scenario: a DROP statement behind a label\<close>

text \<open>
  C2, as the code behaves: the raw model text \<open>Query: DROP TABLE employees\<close> is cleaned
  to \<open>DROP TABLE employees\<close>, and \<open>validate_sql\<close> rejects the cleaned text. The reason
  it gives is the one of the start-token check, which comes before the check for
  dangerous substrings: \<open>Query must start with SELECT, INSERT, UPDATE, or DELETE\<close>.
\<close>

theorem drop_table_cleaned_and_rejected:
  "clean_sql_query ''Query: DROP TABLE employees'' = ''DROP TABLE employees'' \<and>
   validate_sql ''DROP TABLE employees'' =
     (False, ''Query must start with SELECT, INSERT, UPDATE, or DELETE'')"
  by code_simp

text \<open>
  C2, as the spec words it, fails: the reason for the cleaned text is not
  \<open>Potentially dangerous operation detected\<close>.
\<close>

theorem drop_table_reason_counterexample:
  "validate_sql (clean_sql_query ''Query: DROP TABLE employees'') \<noteq>
     (False, ''Potentially dangerous operation detected'')"
  by code_simp

section \<open>The session history and rejected queries\<close>

text \<open>
  C1 at a concrete run: the question is \<open>remove the employees table\<close>, the model
  answers \<open>Query: DROP TABLE employees\<close>, the check box for the history is ticked.
  \<open>validate_sql\<close> rejects the cleaned text, \<open>get_gemini_response\<close> returns a text that
  begins with \<open>Validation Error\<close>, which does not start with \<open>Error\<close>, and
  \<open>query_converter_page\<close> appends it to the history as if it were a query.
\<close>

theorem rejected_query_saved_to_history:
  "\<not> fst (validate_sql (clean_sql_query ''Query: DROP TABLE employees'')) \<and>
   query_converter_page True ''remove the employees table'' True
     (Some (\<lambda>prompt. Inr ''Query: DROP TABLE employees'')) ''2025-01-01 10:00'' [] =
     [\<lparr>question = ''remove the employees table'',
       sql_query = ''Validation Error: Query must start with SELECT, INSERT, UPDATE, or DELETE'',
       timestamp = ''2025-01-01 10:00''\<rparr>]"
  by code_simp

section \<open>The model handle is checked first\<close>

text \<open>
  C10: when the model handle is \<open>None\<close>, \<open>get_gemini_response\<close> returns
  \<open>Error: Gemini AI model not initialized\<close> whatever the question is, so before the
  check for sensitive keywords, the check of the length, the prompt and any call.
\<close>

theorem uninitialized_model_rejected_first:
  "get_gemini_response input_text None = ''Error: Gemini AI model not initialized''"
  by (simp add: get_gemini_response_def)

theorem uninitialized_model_rejected_first_witness:
  "get_gemini_response (''my password'' @ replicate 3000 CHR ''x'') None =
     ''Error: Gemini AI model not initialized''"
  using uninitialized_model_rejected_first [of "''my password'' @ replicate 3000 CHR ''x''"]
  by simp

section \<open>Whitespace is not the empty query\<close>

text \<open>
  C9: a non-empty string of whitespace only is rejected by \<open>validate_sql\<close> with the
  reason \<open>Query must start with SELECT, INSERT, UPDATE, or DELETE\<close>; the reason
  \<open>Empty query\<close> is given for the empty string and for no other string.
\<close>

theorem whitespace_query_rejected:
  assumes "q \<noteq> []" and "\<forall>c\<in>set q. is_space c"
  shows "validate_sql q = (False, ''Query must start with SELECT, INSERT, UPDATE, or DELETE'') \<and>
         (\<forall>q'. validate_sql q' = (False, ''Empty query'') \<longleftrightarrow> q' = [])"
proof -
  have "strip (lower q) = []"
    using assms(2) by (simp add: lower_whitespace strip_eq_Nil)
  then have "validate_sql q = (False, ''Query must start with SELECT, INSERT, UPDATE, or DELETE'')"
    using assms(1) by (simp add: validate_sql_def startswith_def)
  moreover have "\<forall>q'. validate_sql q' = (False, ''Empty query'') \<longleftrightarrow> q' = []"
    by (simp add: validate_sql_def Let_def)
  ultimately show ?thesis by simp
qed

theorem whitespace_query_rejected_witness:
  "validate_sql ''  '' = (False, ''Query must start with SELECT, INSERT, UPDATE, or DELETE'')"
proof -
  have h1: "''  '' \<noteq> []" by simp
  have h2: "\<forall>c\<in>set ''  ''. is_space c" by (simp add: is_space_def)
  show ?thesis using h1 h2 whitespace_query_rejected [OF h1 h2] by simp
qed

section \<open>Rejection before the model is called\<close>

lemma sublist_map_iff: "sublist k (map f q) \<longleftrightarrow> (\<exists>u. sublist u q \<and> map f u = k)"
proof
  assume "sublist k (map f q)"
  then obtain ps ss where "map f q = ps @ (k @ ss)" unfolding sublist_def by blast
  from this [unfolded map_eq_append_conv]
  obtain us vs where q: "q = us @ vs" and vs: "k @ ss = map f vs" by blast
  from vs [unfolded append_eq_map_conv]
  obtain ws xs where "vs = ws @ xs" and "k = map f ws" by blast
  with q show "\<exists>u. sublist u q \<and> map f u = k" unfolding sublist_def by blast
next
  assume "\<exists>u. sublist u q \<and> map f u = k"
  then obtain u ps ss where "q = ps @ u @ ss" "map f u = k" unfolding sublist_def by blast
  then have "map f q = map f ps @ k @ map f ss" by simp
  then show "sublist k (map f q)" unfolding sublist_def by blast
qed

lemma sensitive_iff:
  "list_ex (\<lambda>keyword. contains keyword (lower q)) SENSITIVE_KEYWORDS \<longleftrightarrow>
   (\<exists>k\<in>set SENSITIVE_KEYWORDS. \<exists>u. sublist u q \<and> lower u = k)"
  by (simp only: list_ex_iff contains_iff_sublist lower_def sublist_map_iff)

lemma str_of_max: "str_of_nat MAX_QUERY_LENGTH = ''2000''"
  unfolding MAX_QUERY_LENGTH_def by code_simp

lemma too_long_mentions_max: "sublist ''2000'' ''Error: Query too long (max 2000 characters)''"
  unfolding contains_iff_sublist [symmetric] by code_simp

text \<open>
  C6: a question that contains a sensitive keyword (some substring of the question is,
  lower-cased, one of \<open>SENSITIVE_KEYWORDS\<close>) or that is longer than 2000 characters is
  answered with a fixed failure text. The text is the same for every model handle, so the
  model is not consulted, and the text for a too long question contains \<open>2000\<close>.
\<close>

theorem sensitive_or_long_rejected_before_call:
  assumes "(\<exists>k\<in>set SENSITIVE_KEYWORDS. \<exists>u. sublist u q \<and> lower u = k) \<or> length q > 2000"
  shows "get_gemini_response q (Some m) =
           (if \<exists>k\<in>set SENSITIVE_KEYWORDS. \<exists>u. sublist u q \<and> lower u = k
            then ''Error: Query contains potentially sensitive keywords''
            else ''Error: Query too long (max 2000 characters)'') \<and>
         get_gemini_response q (Some m) = get_gemini_response q (Some m') \<and>
         (\<not> (\<exists>k\<in>set SENSITIVE_KEYWORDS. \<exists>u. sublist u q \<and> lower u = k) \<longrightarrow>
            sublist ''2000'' (get_gemini_response q (Some m)))"
proof -
  have r: "\<And>g. get_gemini_response q (Some g) =
           (if \<exists>k\<in>set SENSITIVE_KEYWORDS. \<exists>u. sublist u q \<and> lower u = k
            then ''Error: Query contains potentially sensitive keywords''
            else ''Error: Query too long (max 2000 characters)'')"
    using assms unfolding get_gemini_response_def str_of_max
    by (auto simp add: sensitive_iff MAX_QUERY_LENGTH_def)
  show ?thesis
    using too_long_mentions_max by (auto simp only: r split: if_splits)
qed

theorem sensitive_or_long_rejected_before_call_witness:
  "get_gemini_response ''What is my PIN code?'' (Some (\<lambda>prompt. Inr ''select 1'')) =
     ''Error: Query contains potentially sensitive keywords'' \<and>
   get_gemini_response ''What is my PIN code?'' (Some (\<lambda>prompt. Inr ''select 1'')) =
     get_gemini_response ''What is my PIN code?'' (Some (\<lambda>prompt. Inl (OtherException ''down'')))"
proof -
  have "list_ex (\<lambda>keyword. contains keyword (lower ''What is my PIN code?'')) SENSITIVE_KEYWORDS"
    by code_simp
  then have h: "\<exists>k\<in>set SENSITIVE_KEYWORDS. \<exists>u. sublist u ''What is my PIN code?'' \<and> lower u = k"
    by (simp only: sensitive_iff)
  then have h': "(\<exists>k\<in>set SENSITIVE_KEYWORDS. \<exists>u. sublist u ''What is my PIN code?'' \<and> lower u = k)
      \<or> length ''What is my PIN code?'' > 2000" by (rule disjI1)
  note t = sensitive_or_long_rejected_before_call
             [OF h', of "\<lambda>prompt. Inr ''select 1''" "\<lambda>prompt. Inl (OtherException ''down'')"]
  from t have a: "get_gemini_response ''What is my PIN code?'' (Some (\<lambda>prompt. Inr ''select 1'')) =
     ''Error: Query contains potentially sensitive keywords''"
    using h by simp
  from t have b: "get_gemini_response ''What is my PIN code?'' (Some (\<lambda>prompt. Inr ''select 1'')) =
     get_gemini_response ''What is my PIN code?'' (Some (\<lambda>prompt. Inl (OtherException ''down'')))"
    by (elim conjE)
  from a b show ?thesis by (rule conjI)
qed

section \<open>Every run returns a tagged value\<close>

lemma strip_Cons_nonspace: "\<not> is_space x \<Longrightarrow> strip (x # xs) = x # rstrip xs"
  by (simp add: strip_def lstrip_Cons rstrip_Cons)

lemma accepted_starts_with_letter:
  assumes "fst (validate_sql r)"
  shows "\<exists>c rest. strip (lower r) = c # rest \<and> c \<in> set ''siud''"
proof -
  from assms have "list_ex (startswith (strip (lower r))) [''select'', ''insert'', ''update'', ''delete'']"
    by (auto simp: validate_sql_def Let_def split: if_splits)
  then show ?thesis
    by (auto simp: startswith_def prefix_def)
qed

lemma lower_char_E: "lower_char CHR ''E'' = CHR ''e''" by code_simp
lemma lower_char_V: "lower_char CHR ''V'' = CHR ''v''" by code_simp
lemma not_space_e: "\<not> is_space CHR ''e''" by code_simp
lemma not_space_v: "\<not> is_space CHR ''v''" by code_simp

lemma accepted_not_tagged:
  assumes "fst (validate_sql r)"
  shows "\<not> failure_tagged r"
proof
  assume "failure_tagged r"
  then consider z where "r = CHR ''E'' # z" | z where "r = CHR ''V'' # z"
    by (auto simp: failure_tagged_def startswith_def prefix_def)
  then have "\<exists>c rest. strip (lower r) = c # rest \<and> c \<in> set ''ev''"
  proof cases
    case 1
    then show ?thesis
      by (simp add: lower_def lower_char_E strip_Cons_nonspace not_space_e)
  next
    case 2
    then show ?thesis
      by (simp add: lower_def lower_char_V strip_Cons_nonspace not_space_v)
  qed
  with accepted_starts_with_letter [OF assms] show False by auto
qed

lemma rejected_run_tag:
  assumes "rejected_run q m"
  shows "startswith (get_gemini_response q (Some m)) ''Validation Error: ''"
  using assms
  by (auto simp: rejected_run_def get_gemini_response_def Let_def startswith_def
           split: sum.splits prod.splits)

lemma other_failure_tag:
  assumes "\<not> accepted_run q m" and "\<not> rejected_run q m"
  shows "startswith (get_gemini_response q (Some m)) ''Error''"
proof (cases "list_ex (\<lambda>keyword. contains keyword (lower q)) SENSITIVE_KEYWORDS")
  case True
  then show ?thesis
    by (simp add: get_gemini_response_def startswith_def)
next
  case ns: False
  show ?thesis
  proof (cases "length q > MAX_QUERY_LENGTH")
    case True
    with ns show ?thesis
      by (simp add: get_gemini_response_def startswith_def del: str_of_nat.simps)
  next
    case nl: False
    show ?thesis
    proof (cases "m (build_prompt q)")
      case (Inl e)
      with ns nl show ?thesis
        by (cases e) (simp_all add: get_gemini_response_def startswith_def)
    next
      case (Inr raw)
      with ns nl assms have False
        by (simp add: accepted_run_def rejected_run_def)
      then show ?thesis ..
    qed
  qed
qed

lemma error_tag_not_validation:
  "startswith r ''Error'' \<Longrightarrow> \<not> startswith r ''Validation Error: ''"
  by (auto simp: startswith_def prefix_def)

lemma accepted_returns_query:
  assumes "accepted_run q m"
  shows "\<exists>raw. m (build_prompt q) = Inr raw \<and>
               get_gemini_response q (Some m) = clean_sql_query raw \<and>
               fst (validate_sql (clean_sql_query raw))"
  using assms
  by (auto simp: accepted_run_def get_gemini_response_def Let_def split: sum.splits prod.splits)

text \<open>
  C4: with an initialized model, \<open>get_gemini_response\<close> returns a string on every
  question and every outcome of the model call, also when the call raises. On the
  accepted path the string is the cleaned query and carries no failure tag; on every other
  path (sensitive keyword, too long, rejected by the validator, any exception of the
  call) the string carries a failure tag, and the tag is \<open>Validation Error: \<close> exactly
  when the validator rejected the cleaned text.
\<close>

theorem get_gemini_response_returns_tagged_value:
  "(accepted_run q m \<and>
      (\<exists>raw. m (build_prompt q) = Inr raw \<and>
             get_gemini_response q (Some m) = clean_sql_query raw) \<and>
      \<not> failure_tagged (get_gemini_response q (Some m))) \<or>
   (\<not> accepted_run q m \<and> failure_tagged (get_gemini_response q (Some m)) \<and>
      (startswith (get_gemini_response q (Some m)) ''Validation Error: '' \<longleftrightarrow>
         rejected_run q m))"
proof (cases "accepted_run q m")
  case True
  from accepted_returns_query [OF True] obtain raw where
    raw: "m (build_prompt q) = Inr raw" "get_gemini_response q (Some m) = clean_sql_query raw"
         "fst (validate_sql (clean_sql_query raw))" by blast
  from raw(3) have "\<not> failure_tagged (clean_sql_query raw)" by (rule accepted_not_tagged)
  with True raw show ?thesis by auto
next
  case False
  show ?thesis
  proof (cases "rejected_run q m")
    case True
    with False rejected_run_tag [OF True] show ?thesis
      by (simp add: failure_tagged_def)
  next
    case nr: False
    from other_failure_tag [OF False nr] error_tag_not_validation False nr show ?thesis
      by (auto simp: failure_tagged_def)
  qed
qed

theorem get_gemini_response_returns_tagged_value_witness:
  "get_gemini_response ''list employees''
     (Some (\<lambda>prompt. Inr ''```sql\<newline>SELECT * FROM employees;\<newline>```'')) =
   clean_sql_query ''```sql\<newline>SELECT * FROM employees;\<newline>```'' \<and>
   startswith
     (get_gemini_response ''list employees''
        (Some (\<lambda>prompt. Inr ''SELECT * FROM employees; DROP TABLE employees'')))
     ''Validation Error: ''"
proof -
  have acc: "accepted_run ''list employees''
               (\<lambda>prompt. Inr ''```sql\<newline>SELECT * FROM employees;\<newline>```'')"
    by code_simp
  from get_gemini_response_returns_tagged_value
         [of "''list employees''"
             "\<lambda>prompt. Inr ''```sql\<newline>SELECT * FROM employees;\<newline>```''"] acc
  have a: "get_gemini_response ''list employees''
             (Some (\<lambda>prompt. Inr ''```sql\<newline>SELECT * FROM employees;\<newline>```'')) =
           clean_sql_query ''```sql\<newline>SELECT * FROM employees;\<newline>```''"
    by auto
  have nacc: "\<not> accepted_run ''list employees''
               (\<lambda>prompt. Inr ''SELECT * FROM employees; DROP TABLE employees'')"
    by code_simp
  have rej: "rejected_run ''list employees''
               (\<lambda>prompt. Inr ''SELECT * FROM employees; DROP TABLE employees'')"
    by code_simp
  from get_gemini_response_returns_tagged_value
         [of "''list employees''"
             "\<lambda>prompt. Inr ''SELECT * FROM employees; DROP TABLE employees''"] nacc rej
  have b: "startswith
     (get_gemini_response ''list employees''
        (Some (\<lambda>prompt. Inr ''SELECT * FROM employees; DROP TABLE employees'')))
     ''Validation Error: ''"
    by blast
  from a b show ?thesis by (rule conjI)
qed

section \<open>What validate_sql accepts\<close>

lemma in_set_butlast_iff:
  "c \<in> set (butlast t) \<longleftrightarrow> (\<exists>i. Suc i < length t \<and> t ! i = c)"
proof
  assume "c \<in> set (butlast t)"
  then obtain i where "i < length (butlast t)" "butlast t ! i = c"
    by (auto simp: in_set_conv_nth)
  then have "Suc i < length t \<and> t ! i = c" by (simp add: nth_butlast)
  then show "\<exists>i. Suc i < length t \<and> t ! i = c" by blast
next
  assume "\<exists>i. Suc i < length t \<and> t ! i = c"
  then obtain i where i: "Suc i < length t" "t ! i = c" by blast
  then have "i < length (butlast t)" "butlast t ! i = c" by (simp_all add: nth_butlast)
  then show "c \<in> set (butlast t)" by (auto simp: in_set_conv_nth)
qed

lemma starts_with_statement_iff:
  "list_ex (startswith t) [''select'', ''insert'', ''update'', ''delete''] \<longleftrightarrow>
   (\<exists>k\<in>{''select'', ''insert'', ''update'', ''delete''}. prefix k t)"
  by (simp add: startswith_def)

lemma dangerous_iff:
  "list_ex (\<lambda>keyword. contains keyword t) [''drop'', ''truncate'', ''alter''] \<longleftrightarrow>
   (\<exists>k\<in>{''drop'', ''truncate'', ''alter''}. sublist k t)"
  by (simp add: contains_iff_sublist)

lemma validate_sql_reasons:
  "validate_sql q =
     (if q = [] then (False, ''Empty query'')
      else if \<not> (\<exists>k\<in>{''select'', ''insert'', ''update'', ''delete''}. prefix k (strip (lower q)))
      then (False, ''Query must start with SELECT, INSERT, UPDATE, or DELETE'')
      else if \<exists>i. Suc i < length (strip (lower q)) \<and> strip (lower q) ! i = CHR '';''
      then (False, ''Multiple queries not allowed'')
      else if \<exists>k\<in>{''drop'', ''truncate'', ''alter''}. sublist k (strip (lower q))
      then (False, ''Potentially dangerous operation detected'')
      else (True, []))"
  unfolding validate_sql_def Let_def starts_with_statement_iff dangerous_iff in_set_butlast_iff
  by (rule refl)

lemma check_chain:
  assumes "v = (if e then (False, a) else if \<not> p1 then (False, b) else if p2 then (False, c)
                else if p3 then (False, d) else (True, []))"
  shows "(v = (True, []) \<longleftrightarrow> \<not> e \<and> p1 \<and> \<not> p2 \<and> \<not> p3) \<and> (fst v \<longleftrightarrow> v = (True, []))"
  using assms by (auto split: if_splits)

text \<open>
  C5: \<open>validate_sql\<close> accepts a string, with the empty reason, exactly when the string
  is not empty and its lower-cased, trimmed form starts with \<open>select\<close>, \<open>insert\<close>,
  \<open>update\<close> or \<open>delete\<close>, has no semicolon before its last character, and has none
  of \<open>drop\<close>, \<open>truncate\<close>, \<open>alter\<close> as a substring. Otherwise it rejects, and the
  reason is the one of the first check that fails, in this order: \<open>Empty query\<close>, the
  start of the statement, \<open>Multiple queries not allowed\<close>,
  \<open>Potentially dangerous operation detected\<close>.
\<close>

theorem validate_sql_accepts_exactly:
  "(validate_sql q = (True, []) \<longleftrightarrow>
      q \<noteq> [] \<and>
      (\<exists>k\<in>{''select'', ''insert'', ''update'', ''delete''}. prefix k (strip (lower q))) \<and>
      \<not> (\<exists>i. Suc i < length (strip (lower q)) \<and> strip (lower q) ! i = CHR '';'') \<and>
      \<not> (\<exists>k\<in>{''drop'', ''truncate'', ''alter''}. sublist k (strip (lower q)))) \<and>
   (fst (validate_sql q) \<longleftrightarrow> validate_sql q = (True, [])) \<and>
   validate_sql q =
     (if q = [] then (False, ''Empty query'')
      else if \<not> (\<exists>k\<in>{''select'', ''insert'', ''update'', ''delete''}. prefix k (strip (lower q)))
      then (False, ''Query must start with SELECT, INSERT, UPDATE, or DELETE'')
      else if \<exists>i. Suc i < length (strip (lower q)) \<and> strip (lower q) ! i = CHR '';''
      then (False, ''Multiple queries not allowed'')
      else if \<exists>k\<in>{''drop'', ''truncate'', ''alter''}. sublist k (strip (lower q))
      then (False, ''Potentially dangerous operation detected'')
      else (True, []))"
  using check_chain [OF validate_sql_reasons [of q]] validate_sql_reasons [of q]
  by (intro conjI) (erule conjunct1, erule conjunct2, assumption)

theorem validate_sql_accepts_exactly_witness:
  "validate_sql ''select 1; select 2'' = (False, ''Multiple queries not allowed'') \<and>
   validate_sql ''SELECT * FROM t;'' = (True, [])"
proof -
  note r = validate_sql_accepts_exactly [THEN conjunct2, THEN conjunct2]
  have e1: "strip (lower ''select 1; select 2'') = ''select 1; select 2''" by code_simp
  have s1: "\<exists>i. Suc i < length ''select 1; select 2'' \<and> ''select 1; select 2'' ! i = CHR '';''"
    by (rule exI [of _ 8]) simp
  have a: "validate_sql ''select 1; select 2'' = (False, ''Multiple queries not allowed'')"
    using s1 by (subst r) (simp add: e1)
  have e2: "strip (lower ''SELECT * FROM t;'') = ''select * from t;''" by code_simp
  have n2: "\<not> (\<exists>i. Suc i < length ''select * from t;'' \<and> ''select * from t;'' ! i = CHR '';'')"
    unfolding in_set_butlast_iff [symmetric] by simp
  have d2: "\<not> (\<exists>k\<in>{''drop'', ''truncate'', ''alter''}. sublist k ''select * from t;'')"
    unfolding dangerous_iff [symmetric] by code_simp
  have b: "validate_sql ''SELECT * FROM t;'' = (True, [])"
    using n2 d2 by (subst r) (simp add: e2)
  from a b show ?thesis by (rule conjI)
qed

section \<open>What clean_sql_query removes\<close>

lemma remove_prefix_no_match: "\<not> startswith (strip s) p \<Longrightarrow> remove_prefix s p = s"
  by (simp add: remove_prefix_def)

lemma fence_sql_imp_fence: "startswith s ''```sql'' \<Longrightarrow> startswith s ''```''"
  by (auto simp: startswith_def prefix_def)

lemma clean_no_fence:
  assumes "\<not> startswith s ''```''" and "\<not> endswith s ''```''"
  shows "clean_sql_query s = strip (foldl remove_prefix s prefixes_to_remove)"
proof (cases "s = []")
  case True
  then show ?thesis
    by (simp add: clean_sql_query_def prefixes_to_remove_def remove_prefix_def startswith_def)
next
  case False
  with assms fence_sql_imp_fence [of s] show ?thesis
    by (auto simp: clean_sql_query_def Let_def)
qed

lemma foldl_remove_prefix_no_match:
  "\<forall>p\<in>set ls. \<not> startswith (strip s) p \<Longrightarrow> foldl remove_prefix s ls = s"
  by (induction ls) (simp_all add: remove_prefix_no_match)

lemma clean_plain:
  assumes "\<not> startswith s ''```''" and "\<not> endswith s ''```''"
    and "\<forall>p\<in>set prefixes_to_remove. \<not> startswith (strip s) p"
  shows "clean_sql_query s = strip s"
  by (simp add: clean_no_fence [OF assms(1,2)] foldl_remove_prefix_no_match [OF assms(3)])

subsection \<open>Text without fences and labels\<close>

text \<open>
  C8, as the code behaves: a string that contains no code fence (three backquotes, anywhere)
  and whose trimmed form starts with no label of \<open>prefixes_to_remove\<close> is returned
  trimmed and otherwise unchanged; on such a string cleaning twice gives what cleaning
  once gives; and the empty string is cleaned to the empty string.
\<close>

theorem clean_idempotent_on_clean_input:
  assumes "\<not> sublist ''```'' s"
    and "\<forall>p\<in>set prefixes_to_remove. \<not> startswith (strip s) p"
  shows "clean_sql_query s = strip s \<and>
         clean_sql_query (clean_sql_query s) = clean_sql_query s \<and>
         clean_sql_query [] = []"
proof -
  have a: "\<not> startswith s ''```''" "\<not> endswith s ''```''"
    using assms(1) by (auto simp: startswith_def endswith_def)
  have first: "clean_sql_query s = strip s"
    using a assms(2) by (rule clean_plain)
  have "\<not> sublist ''```'' (strip s)"
    using assms(1) sublist_strip [of s] sublist_order.order_trans by blast
  then have b: "\<not> startswith (strip s) ''```''" "\<not> endswith (strip s) ''```''"
    by (auto simp: startswith_def endswith_def)
  have c: "\<forall>p\<in>set prefixes_to_remove. \<not> startswith (strip (strip s)) p"
    using assms(2) by (simp add: strip_idem)
  have "clean_sql_query (strip s) = strip (strip s)"
    using b c by (rule clean_plain)
  then have second: "clean_sql_query (clean_sql_query s) = clean_sql_query s"
    by (simp add: first strip_idem)
  have third: "clean_sql_query [] = []" by (simp add: clean_sql_query_def)
  from first second third show ?thesis by simp
qed

theorem clean_idempotent_on_clean_input_witness:
  "clean_sql_query ''  select 1  '' = strip ''  select 1  '' \<and>
   clean_sql_query (clean_sql_query ''  select 1  '') = clean_sql_query ''  select 1  ''"
proof -
  have h1: "\<not> sublist ''```'' ''  select 1  ''"
    unfolding contains_iff_sublist [symmetric] by code_simp
  have "\<not> list_ex (startswith (strip ''  select 1  '')) prefixes_to_remove" by code_simp
  then have h2: "\<forall>p\<in>set prefixes_to_remove. \<not> startswith (strip ''  select 1  '') p"
    by (simp add: list_ex_iff)
  from clean_idempotent_on_clean_input [OF h1 h2] show ?thesis by blast
qed

text \<open>
  C8, as the spec words it, claims that cleaning twice gives what cleaning once gives for
  every string. It does not for \<open>SQL: SQL: select 1\<close>: the first cleaning leaves
  \<open>SQL: select 1\<close>, the second \<open>select 1\<close>.
\<close>

theorem clean_not_idempotent_counterexample:
  "clean_sql_query (clean_sql_query ''SQL: SQL: select 1'') \<noteq>
   clean_sql_query ''SQL: SQL: select 1''"
  by code_simp

subsection \<open>The opening fence\<close>

text \<open>
  C7 at concrete texts: the claim is that an opening fence goes together with its language
  tag, whatever the tag, and the branch for the lower-case tag \<open>sql\<close> does so. For the
  tag \<open>SQL\<close> in upper case \<open>clean_sql_query\<close> takes the three backquotes only and
  leaves the tag at the head of the cleaned text, which \<open>validate_sql\<close> then rejects
  although the statement behind the tag is a plain \<open>SELECT\<close>. For the tag \<open>sqlite\<close>
  it cuts the tag in two and leaves \<open>ite\<close>.
\<close>

theorem opening_fence_tag_left_in_text:
  "clean_sql_query ''```sql\<newline>SELECT 1'' = ''SELECT 1'' \<and>
   clean_sql_query ''```SQL\<newline>SELECT 1'' = ''SQL\<newline>SELECT 1'' \<and>
   validate_sql (clean_sql_query ''```SQL\<newline>SELECT 1'') =
     (False, ''Query must start with SELECT, INSERT, UPDATE, or DELETE'') \<and>
   clean_sql_query ''```sqlite\<newline>SELECT 1'' = ''ite\<newline>SELECT 1''"
  by code_simp

subsection \<open>The label prefixes\<close>

lemma labels_distinct: "distinct prefixes_to_remove"
  by (simp add: prefixes_to_remove_def)

lemma label_shape:
  "p \<in> set prefixes_to_remove \<Longrightarrow> p \<noteq> [] \<and> \<not> is_space (hd p) \<and> \<not> is_space (last p)"
  by (auto simp: prefixes_to_remove_def is_space_def)

lemma label_not_prefix:
  "p \<in> set prefixes_to_remove \<Longrightarrow> q \<in> set prefixes_to_remove \<Longrightarrow> q \<noteq> p \<Longrightarrow>
   \<not> prefix q (p @ x)"
  by (auto simp: prefixes_to_remove_def)

lemma rstrip_nonspace_last: "p \<noteq> [] \<Longrightarrow> \<not> is_space (last p) \<Longrightarrow> rstrip p = p"
  by (cases p rule: rev_cases) (simp_all add: rstrip_def)

lemma lstrip_nonspace_hd: "p \<noteq> [] \<Longrightarrow> \<not> is_space (hd p) \<Longrightarrow> lstrip (p @ r) = p @ r"
  by (cases p) (simp_all add: lstrip_Cons)

lemma strip_label:
  assumes "p \<in> set prefixes_to_remove"
  shows "strip (p @ r) = p @ rstrip r"
proof -
  from label_shape [OF assms] have p: "p \<noteq> []" "\<not> is_space (hd p)" "\<not> is_space (last p)"
    by simp_all
  have "strip (p @ r) = rstrip (p @ r)"
    by (simp add: strip_def lstrip_nonspace_hd [OF p(1,2)])
  also have "\<dots> = p @ rstrip r"
    by (simp add: rstrip_append rstrip_nonspace_last [OF p(1,3)])
  finally show ?thesis .
qed

lemma remove_prefix_same:
  "p \<in> set prefixes_to_remove \<Longrightarrow> remove_prefix (p @ r) p = strip r"
  by (simp add: remove_prefix_def strip_label startswith_def strip_rstrip)

lemma remove_prefix_other:
  "p \<in> set prefixes_to_remove \<Longrightarrow> q \<in> set prefixes_to_remove \<Longrightarrow> q \<noteq> p \<Longrightarrow>
   remove_prefix (p @ r) q = p @ r"
  by (simp add: remove_prefix_def strip_label startswith_def label_not_prefix)

lemma foldl_remove_other_labels:
  "p \<in> set prefixes_to_remove \<Longrightarrow> set ls \<subseteq> set prefixes_to_remove \<Longrightarrow> p \<notin> set ls \<Longrightarrow>
   foldl remove_prefix (p @ r) ls = p @ r"
  by (induction ls) (auto simp: remove_prefix_other)

lemma strip_leading_space: "\<forall>c\<in>set w. is_space c \<Longrightarrow> strip (w @ r) = strip r"
  by (induction w) (simp_all add: strip_def lstrip_Cons)

text \<open>
  C3, as the code behaves: the loop tries the labels of \<open>prefixes_to_remove\<close> once each,
  in the order of the list, so no label is stripped twice. For a label \<open>p\<close> of the list,
  whitespace \<open>w\<close> and any \<open>t\<close>, where the text does not end with a closing fence,
  cleaning \<open>p w p t\<close> gives the trimmed \<open>p t\<close>: the second copy of the label stays. In
  particular \<open>SQL: SQL: select 1\<close> is cleaned to \<open>SQL: select 1\<close>.
\<close>

theorem clean_strips_a_label_once:
  assumes "p \<in> set prefixes_to_remove" and "\<forall>c\<in>set w. is_space c"
    and "\<not> endswith (p @ w @ p @ t) ''```''"
  shows "clean_sql_query (p @ w @ p @ t) = strip (p @ t)"
proof -
  from assms(1) obtain ys zs where split: "prefixes_to_remove = ys @ p # zs"
    by (auto dest: split_list)
  from labels_distinct [unfolded split] have notin: "p \<notin> set ys" "p \<notin> set zs" by auto
  have sub: "set ys \<subseteq> set prefixes_to_remove" "set zs \<subseteq> set prefixes_to_remove"
    unfolding split by auto
  have nofence: "\<not> startswith (p @ w @ p @ t) ''```''"
    using assms(1) by (auto simp: prefixes_to_remove_def startswith_def)
  have "foldl remove_prefix (p @ w @ p @ t) prefixes_to_remove =
        foldl remove_prefix (remove_prefix (foldl remove_prefix (p @ w @ p @ t) ys) p) zs"
    by (simp add: split)
  also have "\<dots> = foldl remove_prefix (remove_prefix (p @ w @ p @ t) p) zs"
    by (simp add: foldl_remove_other_labels [OF assms(1) sub(1) notin(1)])
  also have "\<dots> = foldl remove_prefix (strip (p @ t)) zs"
    by (simp add: remove_prefix_same [OF assms(1)] strip_leading_space [OF assms(2)])
  also have "\<dots> = foldl remove_prefix (p @ rstrip t) zs"
    by (simp add: strip_label [OF assms(1)])
  also have "\<dots> = p @ rstrip t"
    by (rule foldl_remove_other_labels [OF assms(1) sub(2) notin(2)])
  finally have "foldl remove_prefix (p @ w @ p @ t) prefixes_to_remove = p @ rstrip t" .
  then have "clean_sql_query (p @ w @ p @ t) = strip (p @ rstrip t)"
    by (simp add: clean_no_fence [OF nofence assms(3)])
  also have "\<dots> = strip (p @ t)"
    by (simp add: strip_label [OF assms(1)] rstrip_idem)
  finally show ?thesis .
qed

theorem clean_strips_a_label_once_witness:
  "clean_sql_query (''SQL:'' @ '' '' @ ''SQL:'' @ '' select 1'') = ''SQL: select 1''"
proof -
  have h1: "''SQL:'' \<in> set prefixes_to_remove" by (simp add: prefixes_to_remove_def)
  have h2: "\<forall>c\<in>set '' ''. is_space c" by (simp add: is_space_def)
  have h3: "\<not> endswith (''SQL:'' @ '' '' @ ''SQL:'' @ '' select 1'') ''```''" by code_simp
  have e: "strip (''SQL:'' @ '' select 1'') = ''SQL: select 1''" by code_simp
  from clean_strips_a_label_once [OF h1 h2 h3] e show ?thesis by simp
qed

text \<open>
  C3, as the spec words it, claims that at most one label is stripped. The loop goes on
  after a match, so a label later in the list is stripped as well:
  \<open>SQL: Query: select 1\<close> loses both labels.
\<close>

theorem clean_strips_two_labels_counterexample:
  "clean_sql_query ''SQL: Query: select 1'' = ''select 1''"
  by code_simp

end
